theory Spec2Isabelle
  imports Main "HOL-Library.Sublist"
begin

section \<open>Strings of the host language\<close>

text \<open>
  A JavaScript string is modelled as a \<^typ>\<open>string\<close>: a list of code units, restricted
  to the range \<open>0..255\<close> (the Latin-1 block). All patterns of the program are ASCII.
\<close>

definition is_space :: "char \<Rightarrow> bool" where
  \<comment> \<open>White space and line terminators of ECMAScript (\<open>trim\<close>, \<open>\s\<close>) below U+0100:
      TAB, LF, VT, FF, CR, SP, NBSP.\<close>
  "is_space c = (of_char c \<in> {9, 10, 11, 12, 13, 32, 160 :: nat})"

definition is_digit :: "char \<Rightarrow> bool" where
  \<comment> \<open>\<open>\d\<close>\<close>
  "is_digit c = (c \<in> set ''0123456789'')"

definition trim :: "string \<Rightarrow> string" where
  \<comment> \<open>\<open>String.prototype.trim\<close>\<close>
  "trim s = rev (dropWhile is_space (rev (dropWhile is_space s)))"

fun split_on :: "char \<Rightarrow> string \<Rightarrow> string list" where
  \<comment> \<open>\<open>s.split(c)\<close> for a one-character separator; \<open>''.split(c)\<close> is \<open>['']\<close>\<close>
  "split_on c [] = [[]]"
| "split_on c (x # xs) =
     (if x = c then [] # split_on c xs
      else (case split_on c xs of [] \<Rightarrow> [[x]] | w # ws \<Rightarrow> (x # w) # ws))"

definition to_upper :: "char \<Rightarrow> char" where
  \<comment> \<open>The canonicalisation of a code unit under the \<open>i\<close> flag (without \<open>u\<close>):
      upper case of the ASCII letters. The patterns of the program are ASCII, and the
      language equates no code unit beyond ASCII with an ASCII one, so that for them the
      comparison of canonical forms is exact.\<close>
  "to_upper c =
     (case map_of (zip ''abcdefghijklmnopqrstuvwxyz'' ''ABCDEFGHIJKLMNOPQRSTUVWXYZ'') c of
        Some u \<Rightarrow> u
      | None \<Rightarrow> c)"

fun show_nat :: "nat \<Rightarrow> string" where
  \<comment> \<open>The decimal numeral of a non-negative integer, as a template literal prints a number
      (below \<open>10^21\<close>, where JavaScript switches to the exponent form).\<close>
  "show_nat n =
     (if n < 10 then [''0123456789'' ! n]
      else show_nat (n div 10) @ [''0123456789'' ! (n mod 10)])"

declare show_nat.simps [simp del]

definition truthy :: "string option \<Rightarrow> bool" where
  \<comment> \<open>\<open>if (v)\<close> for a value that is a string, \<open>null\<close> or \<open>undefined\<close>:
      the empty string is falsy.\<close>
  "truthy v = (case v of None \<Rightarrow> False | Some s \<Rightarrow> s \<noteq> [])"


section \<open>Regular expressions\<close>

text \<open>
  The fragment of ECMAScript regular expressions the program uses, with the backtracking
  order of the language: alternatives left to right, \<open>?\<close> and greedy quantifiers
  longest first, lazy quantifiers shortest first. Quantifiers \<open>*\<close>, \<open>+\<close> stand on
  character classes only, which is all the program's patterns need.
\<close>

datatype quantifier = Greedy | Lazy

datatype regex =
    Empty
  | Atom "char \<Rightarrow> bool"
  | Seq regex regex
  | Alt regex regex
  | Opt regex
  | Rep quantifier nat "char \<Rightarrow> bool"
  | Group nat regex
  | EndOfInput

type_synonym captures = "nat \<rightharpoonup> string"

fun counts :: "quantifier \<Rightarrow> nat \<Rightarrow> nat \<Rightarrow> nat list" where
  \<comment> \<open>the numbers of repetitions a quantifier tries, in its order, between the minimum
      and the length of the run of matching characters\<close>
  "counts Greedy m n = rev [m..<Suc n]"
| "counts Lazy m n = [m..<Suc n]"

primrec run :: "regex \<Rightarrow> string \<Rightarrow> captures \<Rightarrow> (string \<times> captures) list" where
  \<comment> \<open>every way the pattern matches a prefix of the input, in backtracking order: the
      input left over and the captures\<close>
  "run Empty s c = [(s, c)]"
| "run (Atom P) s c = (case s of [] \<Rightarrow> [] | x # xs \<Rightarrow> if P x then [(xs, c)] else [])"
| "run (Seq a b) s c = concat (map (\<lambda>(s', c'). run b s' c') (run a s c))"
| "run (Alt a b) s c = run a s c @ run b s c"
| "run (Opt a) s c = run a s c @ [(s, c)]"
| "run (Rep q m P) s c = map (\<lambda>k. (drop k s, c)) (counts q m (length (takeWhile P s)))"
| "run (Group i a) s c =
     map (\<lambda>(s', c'). (s', c'(i \<mapsto> take (length s - length s') s))) (run a s c)"
| "run EndOfInput s c = (if s = [] then [(s, c)] else [])"

primrec re_match :: "regex \<Rightarrow> string \<Rightarrow> captures option" where
  \<comment> \<open>\<open>s.match(re)\<close> without the \<open>g\<close> flag: the first way to match at the leftmost
      position that has one; \<open>null\<close> is \<open>None\<close>\<close>
  "re_match r [] = (case run r [] Map.empty of [] \<Rightarrow> None | (s', c) # _ \<Rightarrow> Some c)"
| "re_match r (x # xs) =
     (case run r (x # xs) Map.empty of [] \<Rightarrow> re_match r xs | (s', c) # _ \<Rightarrow> Some c)"

definition re_test :: "regex \<Rightarrow> string \<Rightarrow> bool" where
  \<comment> \<open>\<open>re.test(s)\<close>\<close>
  "re_test r s = (case re_match r s of None \<Rightarrow> False | Some match \<Rightarrow> True)"

definition group :: "captures \<Rightarrow> nat \<Rightarrow> string" where
  \<comment> \<open>\<open>`${match[i]}`\<close>: a group that took no part in the match prints as \<open>undefined\<close>\<close>
  "group c i = (case c i of None \<Rightarrow> ''undefined'' | Some v \<Rightarrow> v)"

definition lit :: "char \<Rightarrow> regex" where
  "lit a = Atom (\<lambda>x. x = a)"

definition lit_i :: "char \<Rightarrow> regex" where
  \<comment> \<open>a literal character under the \<open>i\<close> flag\<close>
  "lit_i a = Atom (\<lambda>x. to_upper x = to_upper a)"

primrec str :: "string \<Rightarrow> regex" where
  "str [] = Empty"
| "str (a # as) = Seq (lit a) (str as)"

primrec str_i :: "string \<Rightarrow> regex" where
  "str_i [] = Empty"
| "str_i (a # as) = Seq (lit_i a) (str_i as)"

primrec seqs :: "regex list \<Rightarrow> regex" where
  "seqs [] = Empty"
| "seqs (r # rs) = Seq r (seqs rs)"

definition not_slash :: "char \<Rightarrow> bool" where
  \<comment> \<open>\<open>[^/]\<close>\<close>
  "not_slash x = (x \<noteq> CHR ''/'')"

definition github_re :: regex where
  \<comment> \<open>\<open>/github\.com[:/]([^/]+)\/([^/]+?)(?:\.git)?\/?$/\<close>\<close>
  "github_re = seqs
     [str ''github.com'', Atom (\<lambda>x. x = CHR '':'' \<or> x = CHR ''/''),
      Group 1 (Rep Greedy 1 not_slash), lit CHR ''/'', Group 2 (Rep Lazy 1 not_slash),
      Opt (str ''.git''), Opt (lit CHR ''/''), EndOfInput]"

definition github_suffix_re :: regex where
  \<comment> \<open>the end of the pattern above, after its second group: \<open>(?:\.git)?\/?$\<close>\<close>
  "github_suffix_re = seqs [Opt (str ''.git''), Opt (lit CHR ''/''), EndOfInput]"

definition github_suffixes :: "string set" where
  \<comment> \<open>what may follow the repository name\<close>
  "github_suffixes = {[], ''/'', ''.git'', ''.git/''}"


definition github_host_re :: regex where
  \<comment> \<open>\<open>/github\.com/\<close>\<close>
  "github_host_re = str ''github.com''"

definition merge_re :: regex where
  \<comment> \<open>\<open>/Merge pull request #(\d+)/i\<close>\<close>
  "merge_re = seqs [str_i ''Merge pull request #'', Group 1 (Rep Greedy 1 is_digit)]"

definition keyword_re :: regex where
  \<comment> \<open>\<open>/(?:fixes?|closes?|resolves?|refs?)[\s:]*#(\d+)/i\<close>\<close>
  "keyword_re = seqs
     [Alt (Seq (str_i ''fixe'') (Opt (lit_i CHR ''s'')))
        (Alt (Seq (str_i ''close'') (Opt (lit_i CHR ''s'')))
           (Alt (Seq (str_i ''resolve'') (Opt (lit_i CHR ''s'')))
              (Seq (str_i ''ref'') (Opt (lit_i CHR ''s''))))),
      Rep Greedy 0 (\<lambda>x. is_space x \<or> x = CHR '':''),
      lit_i CHR ''#'', Group 1 (Rep Greedy 1 is_digit)]"

definition bare_re :: regex where
  \<comment> \<open>\<open>/#(\d+)/\<close>\<close>
  "bare_re = seqs [lit CHR ''#'', Group 1 (Rep Greedy 1 is_digit)]"


section \<open>The extension\<close>

text \<open>
  \<open>execAsync(command, {cwd})\<close> is the query service of the version-control system: a
  partial map from the command line and the working directory to the standard output,
  undefined where the promise is rejected; a query repeated within one call of a function
  gives the same answer. A function that awaits it returns, beside its value, the command
  lines it has run, in order. The configuration is a partial map from
  keys to strings; \<open>config.get(key)\<close> is \<open>undefined\<close> where the key is not set.
\<close>

type_synonym exec = "string \<times> string \<rightharpoonup> string"

type_synonym config = "string \<rightharpoonup> string"

datatype error = Error string

definition getGitRef :: "exec \<Rightarrow> string \<Rightarrow> bool \<Rightarrow> string list \<times> (error + string)" where
  "getGitRef exec gitRoot useCommitHash =
     (if useCommitHash then
        (case exec (''git rev-parse HEAD'', gitRoot) of
           None \<Rightarrow> ([''git rev-parse HEAD''], Inl (Error ''Failed to get git reference''))
         | Some stdout \<Rightarrow> ([''git rev-parse HEAD''], Inr (trim stdout)))
      else
        (let branch = (case exec (''git branch --show-current'', gitRoot) of
                         None \<Rightarrow> []
                       | Some stdout \<Rightarrow> trim stdout)
         in if branch \<noteq> [] then ([''git branch --show-current''], Inr branch)
            else
              (case exec (''git rev-parse HEAD'', gitRoot) of
                 None \<Rightarrow> ([''git branch --show-current'', ''git rev-parse HEAD''],
                          Inl (Error ''Failed to get git reference''))
               | Some stdout \<Rightarrow> ([''git branch --show-current'', ''git rev-parse HEAD''],
                                 Inr (trim stdout)))))"

fun normalizeSegments :: "string list \<Rightarrow> string list \<Rightarrow> string list" where
  \<comment> \<open>the loop of \<open>normalizeString\<close> below, one path segment at a time: \<open>res\<close> holds the
      segments kept so far\<close>
  "normalizeSegments res [] = res"
| "normalizeSegments res (seg # segs) =
     (if seg = [] \<or> seg = ''.'' then normalizeSegments res segs
      else if seg = ''..'' then normalizeSegments (butlast res) segs
      else normalizeSegments (res @ [seg]) segs)"

fun join_slash :: "string list \<Rightarrow> string" where
  "join_slash [] = []"
| "join_slash [seg] = seg"
| "join_slash (seg # segs) = seg @ ''/'' @ join_slash segs"

definition normalizeString :: "string \<Rightarrow> string" where
  \<comment> \<open>\<open>normalizeString(path, false, '/', isPosixPathSeparator)\<close> of Node.js
      (\<open>lib/path.js\<close>): empty segments and \<open>.\<close> are dropped, \<open>..\<close> removes the
      segment before it, or nothing at the root; the result has no slash at either end\<close>
  "normalizeString path = join_slash (normalizeSegments [] (split_on CHR ''/'' path))"

definition posix_resolve :: "string \<Rightarrow> string \<Rightarrow> string" where
  \<comment> \<open>\<open>posix.resolve(path)\<close> with one argument; \<open>cwd\<close> is \<open>process.cwd()\<close>, an
      absolute path, used when \<open>path\<close> is empty or is not absolute\<close>
  "posix_resolve cwd path =
     (let resolvedPath =
            (if path = [] then cwd @ ''/''
             else if hd path = CHR ''/'' then path @ ''/''
             else cwd @ ''/'' @ path @ ''/'')
      in ''/'' @ normalizeString resolvedPath)"

definition relative_resolved :: "string \<Rightarrow> string \<Rightarrow> string" where
  \<comment> \<open>the body of \<open>posix.relative\<close> of Node.js (\<open>lib/path.js\<close>) after its two calls of
      \<open>resolve\<close>: \<open>fromPath\<close> and \<open>toPath\<close> are the resolved paths. \<open>i\<close> is where the
      comparison loop stops; \<open>lastCommonSep\<close> is \<open>-1\<close> when the common part has no
      separator.\<close>
  "relative_resolved fromPath toPath =
     (if fromPath = toPath then []
      else
        (let fromLen = length fromPath - 1;
             toLen = length toPath - 1;
             len = (if fromLen < toLen then fromLen else toLen);
             i = length (takeWhile (\<lambda>(a, b). a = b) (zip (drop 1 fromPath) (drop 1 toPath)));
             lastCommonSep =
               (case filter (\<lambda>k. fromPath ! (1 + k) = CHR ''/'') (rev [0..<i]) of
                  [] \<Rightarrow> - 1
                | k # _ \<Rightarrow> int k)
         in if i = len \<and> toLen > len \<and> toPath ! (1 + i) = CHR ''/'' then drop (1 + i + 1) toPath
            else if i = len \<and> toLen > len \<and> i = 0 then drop (1 + i) toPath
            else
              (let lastCommonSep =
                     (if i = len \<and> \<not> toLen > len \<and> fromLen > len then
                        (if fromPath ! (1 + i) = CHR ''/'' then int i
                         else if i = 0 then 0
                         else lastCommonSep)
                      else lastCommonSep);
                   ups = 1 + length (filter (\<lambda>x. x = CHR ''/'')
                                       (drop (nat (1 + lastCommonSep + 1)) fromPath));
                   out = ''..'' @ concat (replicate (ups - 1) ''/..'')
               in out @ drop (nat (1 + lastCommonSep)) toPath)))"

definition posix_relative :: "string \<Rightarrow> string \<Rightarrow> string \<Rightarrow> string" where
  \<comment> \<open>\<open>path.relative(from, to)\<close> of Node.js on a POSIX platform (\<open>lib/path.js\<close>,
      \<open>posix.relative\<close>): equal arguments give the empty path; otherwise both are
      resolved against the working directory \<open>cwd\<close> and compared\<close>
  "posix_relative cwd fromArg toArg =
     (if fromArg = toArg then []
      else relative_resolved (posix_resolve cwd fromArg) (posix_resolve cwd toArg))"

definition getRelativePath :: "(string \<Rightarrow> string \<Rightarrow> string) \<Rightarrow> string \<Rightarrow> string \<Rightarrow> string" where
  \<comment> \<open>\<open>relative\<close> is \<open>path.relative\<close> of the platform's \<open>path\<close> module;
      \<open>.replace(/\\/g, '/')\<close> turns every backslash into a slash\<close>
  "getRelativePath relative filePath gitRoot =
     map (\<lambda>x. if x = CHR 0x5C then CHR ''/'' else x) (relative gitRoot filePath)"

definition constructGitHubUrl :: "string \<Rightarrow> string \<Rightarrow> string \<Rightarrow> nat option \<Rightarrow> string" where
  \<comment> \<open>\<open>lineNumber\<close> is \<open>null\<close> or a non-negative integer; \<open>if (lineNumber)\<close> is false
      for \<open>null\<close> and for \<open>0\<close>\<close>
  "constructGitHubUrl repositoryUrl gitRef relativePath lineNumber =
     (let url = repositoryUrl @ ''/blob/'' @ gitRef @ ''/'' @ relativePath
      in case lineNumber of
           None \<Rightarrow> url
         | Some n \<Rightarrow> if n \<noteq> 0 then url @ ''#L'' @ show_nat n else url)"

definition getRemoteUrl :: "exec \<Rightarrow> string \<Rightarrow> string \<Rightarrow> string list \<times> string option" where
  "getRemoteUrl exec gitRoot remoteName =
     ([''git remote get-url '' @ remoteName],
      map_option trim (exec (''git remote get-url '' @ remoteName, gitRoot)))"

definition getAllRemotes :: "exec \<Rightarrow> string \<Rightarrow> string list \<times> string list" where
  "getAllRemotes exec gitRoot =
     ([''git remote''],
      case exec (''git remote'', gitRoot) of
        None \<Rightarrow> []
      | Some stdout \<Rightarrow> filter (\<lambda>name. length name > 0) (split_on CHR 0x0A (trim stdout)))"

definition isGitHubUrl :: "string option \<Rightarrow> bool" where
  "isGitHubUrl url = (if \<not> truthy url then False else re_test github_host_re (the url))"

definition normalizeGitHubUrl :: "string option \<Rightarrow> string option" where
  "normalizeGitHubUrl url =
     (if \<not> truthy url then None
      else case re_match github_re (the url) of
             Some match \<Rightarrow> Some (''https://github.com/'' @ group match 1 @ ''/'' @ group match 2)
           | None \<Rightarrow> None)"

definition recognized :: "string option \<Rightarrow> string option" where
  \<comment> \<open>the test each priority step applies to a remote's URL:
      \<open>if (url && isGitHubUrl(url)) { const normalized = normalizeGitHubUrl(url);
      if (normalized) return normalized; }\<close>; \<open>None\<close> is falling through\<close>
  "recognized url =
     (if truthy url \<and> isGitHubUrl url then
        (let normalized = normalizeGitHubUrl url
         in if truthy normalized then normalized else None)
      else None)"

fun checkAllRemotes :: "exec \<Rightarrow> string \<Rightarrow> string list \<Rightarrow> string list \<times> string option" where
  \<comment> \<open>the loop \<open>for (const remote of allRemotes)\<close> of step 4\<close>
  "checkAllRemotes exec gitRoot [] = ([], None)"
| "checkAllRemotes exec gitRoot (remote # remotes) =
     (let (q, remoteUrl) = getRemoteUrl exec gitRoot remote
      in case recognized remoteUrl of
           Some normalized \<Rightarrow> (q, Some normalized)
         | None \<Rightarrow>
             (let (q', result) = checkAllRemotes exec gitRoot remotes in (q @ q', result)))"

definition getGitHubRepositoryUrl :: "exec \<Rightarrow> string \<Rightarrow> config \<Rightarrow> string list \<times> string option" where
  "getGitHubRepositoryUrl exec gitRoot config =
     (let configUrl = config ''repositoryUrl''
      in if truthy configUrl then ([], configUrl)
         else
           (let (q1, upstreamUrl) = getRemoteUrl exec gitRoot ''upstream''
            in case recognized upstreamUrl of
                 Some normalized \<Rightarrow> (q1, Some normalized)
               | None \<Rightarrow>
                   (let (q2, originUrl) = getRemoteUrl exec gitRoot ''origin''
                    in case recognized originUrl of
                         Some normalized \<Rightarrow> (q1 @ q2, Some normalized)
                       | None \<Rightarrow>
                           (let (q3, allRemotes) = getAllRemotes exec gitRoot;
                                (q4, result) = checkAllRemotes exec gitRoot allRemotes
                            in (q1 @ q2 @ q3 @ q4, result)))))"

definition getPRNumberFromCommit :: "exec \<Rightarrow> string \<Rightarrow> string \<Rightarrow> string list \<times> string option" where
  "getPRNumberFromCommit exec gitRoot commitHash =
     ([''git log -1 --format=%B '' @ commitHash],
      case exec (''git log -1 --format=%B '' @ commitHash, gitRoot) of
        None \<Rightarrow> None
      | Some commitMessage \<Rightarrow>
          (case re_match merge_re commitMessage of
             Some match \<Rightarrow> match 1
           | None \<Rightarrow>
               (case re_match keyword_re commitMessage of
                  Some match \<Rightarrow> match 1
                | None \<Rightarrow>
                    (case re_match bare_re commitMessage of
                       Some match \<Rightarrow> match 1
                     | None \<Rightarrow> None))))"


section \<open>Properties\<close>

subsection \<open>The file link\<close>

text \<open>The numeral of a line number is a non-empty string of decimal digits.\<close>

lemma show_nat_digits: "show_nat n \<noteq> [] \<and> set (show_nat n) \<subseteq> set ''0123456789''"
proof (induction n rule: show_nat.induct)
  case (1 n)
  have d: "''0123456789'' ! k \<in> set ''0123456789''" if "k < 10" for k
    using that nth_mem [of k "''0123456789''"] by simp
  show ?case
  proof (cases "n < 10")
    case True
    with d [of n] show ?thesis
      by (subst (1 2) show_nat.simps) simp
  next
    case False
    with 1 d [of "n mod 10"] show ?thesis
      by (subst (1 2) show_nat.simps) simp
  qed
qed

text \<open>
  Claim C3. For every repository URL, git ref and relative path, \<open>constructGitHubUrl\<close>
  returns \<open><repositoryUrl>/blob/<ref>/<relativePath>\<close> when no line number is supplied,
  and that string followed by \<open>#L<lineNumber>\<close> when a 1-based line number (one that is
  at least 1) is supplied. The witness is the example of the specification: the link
  of \<open>src/index.ts\<close> on \<open>main\<close>, without a line and at line 42.
\<close>

theorem constructGitHubUrl_file_link:
  "constructGitHubUrl repositoryUrl gitRef relativePath None =
     repositoryUrl @ ''/blob/'' @ gitRef @ ''/'' @ relativePath
   \<and> (1 \<le> n \<longrightarrow>
        constructGitHubUrl repositoryUrl gitRef relativePath (Some n) =
          repositoryUrl @ ''/blob/'' @ gitRef @ ''/'' @ relativePath @ ''#L'' @ show_nat n)"
  by (simp add: constructGitHubUrl_def)

theorem constructGitHubUrl_file_link_witness:
  "(1::nat) \<le> 42
   \<and> constructGitHubUrl ''https://github.com/acme/widgets'' ''main'' ''src/index.ts'' None =
       ''https://github.com/acme/widgets/blob/main/src/index.ts''
   \<and> constructGitHubUrl ''https://github.com/acme/widgets'' ''main'' ''src/index.ts'' (Some 42) =
       ''https://github.com/acme/widgets/blob/main/src/index.ts#L42''"
  using constructGitHubUrl_file_link
    [of "''https://github.com/acme/widgets''" "''main''" "''src/index.ts''" 42]
  by (simp add: show_nat.simps)

text \<open>
  Claim C10. A line number of 0 gives no anchor: the link built for line 0 is the link
  built for no line, and the anchor \<open>#L<lineNumber>\<close> is appended if and only if the
  line number is neither \<open>null\<close> nor 0.
\<close>

theorem constructGitHubUrl_line_zero:
  "constructGitHubUrl repositoryUrl gitRef relativePath (Some 0) =
     constructGitHubUrl repositoryUrl gitRef relativePath None
   \<and> constructGitHubUrl repositoryUrl gitRef relativePath lineNumber =
       repositoryUrl @ ''/blob/'' @ gitRef @ ''/'' @ relativePath @
         (if lineNumber \<noteq> None \<and> lineNumber \<noteq> Some 0 then ''#L'' @ show_nat (the lineNumber)
          else [])"
  by (cases lineNumber) (simp_all add: constructGitHubUrl_def)

theorem constructGitHubUrl_line_zero_witness:
  "constructGitHubUrl ''https://github.com/acme/widgets'' ''main'' ''src/index.ts'' (Some 0) =
     ''https://github.com/acme/widgets/blob/main/src/index.ts''
   \<and> constructGitHubUrl ''https://github.com/acme/widgets'' ''main'' ''src/index.ts'' (Some 7) =
       ''https://github.com/acme/widgets/blob/main/src/index.ts#L7''"
  using constructGitHubUrl_line_zero
    [of "''https://github.com/acme/widgets''" "''main''" "''src/index.ts''" "Some 0"]
    constructGitHubUrl_line_zero
    [of "''https://github.com/acme/widgets''" "''main''" "''src/index.ts''" "Some 7"]
  by (simp add: show_nat.simps)


subsection \<open>The reference resolver\<close>

lemma trim_feature_x: "trim (''feature-x\<newline>'') = ''feature-x''"
  by (simp add: trim_def is_space_def)

lemma trim_line_feed: "trim ''\<newline>'' = []"
  by (simp add: trim_def is_space_def)

text \<open>
  Claim C4. With the prefer-commit flag false, \<open>getGitRef\<close> returns the trimmed output
  of the branch query when that query succeeds with a non-empty name, and then runs no
  other query; when the branch query fails or gives an empty name it returns the trimmed
  output of the commit query; it fails if and only if the branch query gave no name and the
  commit query failed, and the failure is \<open>Failed to get git reference\<close>.
\<close>

theorem getGitRef_branch_or_commit:
  "(exec (''git branch --show-current'', gitRoot) = Some out \<and> trim out \<noteq> [] \<longrightarrow>
       getGitRef exec gitRoot False = ([''git branch --show-current''], Inr (trim out)))
   \<and> ((exec (''git branch --show-current'', gitRoot) = None
         \<or> map_option trim (exec (''git branch --show-current'', gitRoot)) = Some [])
        \<and> exec (''git rev-parse HEAD'', gitRoot) = Some commit \<longrightarrow>
       getGitRef exec gitRoot False =
         ([''git branch --show-current'', ''git rev-parse HEAD''], Inr (trim commit)))
   \<and> ((\<exists>e. snd (getGitRef exec gitRoot False) = Inl e) \<longleftrightarrow>
        (exec (''git branch --show-current'', gitRoot) = None
           \<or> map_option trim (exec (''git branch --show-current'', gitRoot)) = Some [])
        \<and> exec (''git rev-parse HEAD'', gitRoot) = None)
   \<and> (snd (getGitRef exec gitRoot False) = Inl e \<longrightarrow>
         e = Error ''Failed to get git reference'')"
  by (auto simp add: getGitRef_def Let_def split: option.splits)

theorem getGitRef_branch_or_commit_witness:
  "getGitRef [(''git branch --show-current'', ''/repo'') \<mapsto> ''feature-x\<newline>''] ''/repo'' False =
     ([''git branch --show-current''], Inr ''feature-x'')
   \<and> getGitRef [(''git branch --show-current'', ''/repo'') \<mapsto> ''\<newline>'',
                 (''git rev-parse HEAD'', ''/repo'') \<mapsto> ''abcdef1234abcdef1234abcdef1234abcdef1234\<newline>'']
         ''/repo'' False =
       ([''git branch --show-current'', ''git rev-parse HEAD''],
        Inr ''abcdef1234abcdef1234abcdef1234abcdef1234'')
   \<and> snd (getGitRef Map.empty ''/repo'' False) = Inl (Error ''Failed to get git reference'')"
proof -
  let ?e1 = "[(''git branch --show-current'', ''/repo'') \<mapsto> ''feature-x\<newline>'']"
  let ?e2 = "[(''git branch --show-current'', ''/repo'') \<mapsto> ''\<newline>'',
              (''git rev-parse HEAD'', ''/repo'') \<mapsto> ''abcdef1234abcdef1234abcdef1234abcdef1234\<newline>'']"
  have t: "trim (''abcdef1234abcdef1234abcdef1234abcdef1234\<newline>'') = ''abcdef1234abcdef1234abcdef1234abcdef1234''"
    by (simp add: trim_def is_space_def)
  have a: "getGitRef ?e1 ''/repo'' False = ([''git branch --show-current''], Inr ''feature-x'')"
    using getGitRef_branch_or_commit [of ?e1 "''/repo''" "''feature-x\<newline>''", THEN conjunct1]
    by (simp add: trim_feature_x)
  have b: "getGitRef ?e2 ''/repo'' False =
       ([''git branch --show-current'', ''git rev-parse HEAD''],
        Inr ''abcdef1234abcdef1234abcdef1234abcdef1234'')"
    using getGitRef_branch_or_commit
      [of ?e2 "''/repo''" _ "''abcdef1234abcdef1234abcdef1234abcdef1234\<newline>''",
        THEN conjunct2, THEN conjunct1]
    by (simp add: trim_line_feed t)
  have "\<exists>e. snd (getGitRef Map.empty ''/repo'' False) = Inl e"
    using getGitRef_branch_or_commit
      [of Map.empty "''/repo''", THEN conjunct2, THEN conjunct2, THEN conjunct1]
    by simp
  then obtain e where e: "snd (getGitRef Map.empty ''/repo'' False) = Inl e"
    by blast
  have c: "snd (getGitRef Map.empty ''/repo'' False) = Inl (Error ''Failed to get git reference'')"
    using e getGitRef_branch_or_commit
      [of Map.empty "''/repo''" _ _ e, THEN conjunct2, THEN conjunct2, THEN conjunct2]
    by simp
  from a b c show ?thesis by simp
qed


subsection \<open>The remote identifier\<close>

text \<open>
  A URL that \<open>normalizeGitHubUrl\<close> accepts contains the host marker, so the test of each
  priority step is the normalisation alone.
\<close>

lemma re_test_iff: "re_test r s \<longleftrightarrow> re_match r s \<noteq> None"
  by (simp add: re_test_def split: option.splits)

lemma run_github_re_host: "run github_host_re s c = [] \<Longrightarrow> run github_re s c = []"
  by (simp add: github_re_def github_host_re_def)

lemma re_match_github_re_host:
  "re_match github_re s \<noteq> None \<Longrightarrow> re_match github_host_re s \<noteq> None"
proof (induction s)
  case Nil
  then show ?case
    by (cases "run github_host_re [] Map.empty")
       (auto simp add: run_github_re_host split: list.splits)
next
  case (Cons x xs)
  show ?case
  proof (cases "run github_host_re (x # xs) Map.empty")
    case Nil
    then have "run github_re (x # xs) Map.empty = []"
      by (rule run_github_re_host)
    with Cons Nil show ?thesis by simp
  next
    case (Cons p ps)
    then show ?thesis by (simp split: prod.splits)
  qed
qed

lemma normalizeGitHubUrl_Some:
  assumes "normalizeGitHubUrl url = Some n"
  shows "truthy url" and "isGitHubUrl url" and "truthy (Some n)"
proof -
  from assms show t: "truthy url"
    by (auto simp add: normalizeGitHubUrl_def split: if_splits)
  from assms have "re_match github_re (the url) \<noteq> None"
    by (auto simp add: normalizeGitHubUrl_def split: if_splits option.splits)
  then show "isGitHubUrl url"
    using t by (simp add: isGitHubUrl_def re_test_iff re_match_github_re_host)
  from assms show "truthy (Some n)"
    by (auto simp add: normalizeGitHubUrl_def truthy_def split: if_splits option.splits)
qed

lemma recognized_normalizeGitHubUrl: "recognized url = normalizeGitHubUrl url"
proof (cases "normalizeGitHubUrl url")
  case None
  then show ?thesis by (simp add: recognized_def truthy_def)
next
  case (Some n)
  from normalizeGitHubUrl_Some [OF Some] Some show ?thesis
    by (simp add: recognized_def)
qed

lemma trim_upstream_widgets:
  "trim ''https://github.com/acme/widgets\<newline>'' = ''https://github.com/acme/widgets''"
  by (simp add: trim_def is_space_def)

lemma normalize_widgets:
  "normalizeGitHubUrl (Some ''https://github.com/acme/widgets'') =
     Some ''https://github.com/acme/widgets''"
  by code_simp


lemma trim_gitlab:
  "trim ''https://gitlab.com/acme/fork\<newline>'' = ''https://gitlab.com/acme/fork''"
  by (simp add: trim_def is_space_def)

lemma trim_fork:
  "trim ''https://github.com/acme/fork\<newline>'' = ''https://github.com/acme/fork''"
  by (simp add: trim_def is_space_def)


lemma normalize_fork:
  "normalizeGitHubUrl (Some ''https://github.com/acme/fork'') = Some ''https://github.com/acme/fork''"
  by code_simp

lemma normalize_gitlab:
  "normalizeGitHubUrl (Some ''https://gitlab.com/acme/fork'') = None"
  by code_simp

text \<open>
  Claim C1, as amended. If the \<open>repositoryUrl\<close> configuration value is set to a non-empty
  string, \<open>getGitHubRepositoryUrl\<close> returns exactly that string, whatever the remotes
  are, and runs no query of the version-control system.
\<close>

theorem getGitHubRepositoryUrl_config_first:
  "config ''repositoryUrl'' = Some u \<and> u \<noteq> [] \<longrightarrow>
     getGitHubRepositoryUrl exec gitRoot config = ([], Some u)"
  by (simp add: getGitHubRepositoryUrl_def truthy_def)

theorem getGitHubRepositoryUrl_config_first_witness:
  "getGitHubRepositoryUrl
     [(''git remote get-url origin'', ''/repo'') \<mapsto> ''https://github.com/other/repo\<newline>'']
     ''/repo'' [''repositoryUrl'' \<mapsto> ''https://github.com/acme/widgets''] =
   ([], Some ''https://github.com/acme/widgets'')"
  using getGitHubRepositoryUrl_config_first
    [of "[''repositoryUrl'' \<mapsto> ''https://github.com/acme/widgets'']"
        "''https://github.com/acme/widgets''"
        "[(''git remote get-url origin'', ''/repo'') \<mapsto> ''https://github.com/other/repo\<newline>'']"
        "''/repo''"]
  by simp

text \<open>
  Claim C1, as stated, fails for a value that is set but empty: with \<open>repositoryUrl\<close> set
  to the empty string and an upstream remote on the hosting service, the result is the
  upstream URL and not the configured string.
\<close>

theorem getGitHubRepositoryUrl_config_set_counterexample:
  "[''repositoryUrl'' \<mapsto> ''''] ''repositoryUrl'' = Some ''''
   \<and> snd (getGitHubRepositoryUrl
        [(''git remote get-url upstream'', ''/repo'') \<mapsto> ''https://github.com/acme/widgets\<newline>'']
        ''/repo'' [''repositoryUrl'' \<mapsto> '''']) =
       Some ''https://github.com/acme/widgets''
   \<and> Some ''https://github.com/acme/widgets'' \<noteq> Some ''''"
  by (simp add: getGitHubRepositoryUrl_def truthy_def getRemoteUrl_def
      trim_upstream_widgets recognized_normalizeGitHubUrl normalize_widgets)

text \<open>
  The loop over the listed remotes returns the normalised URL of the first remote that has
  one, after querying the remotes up to it, and nothing after querying them all.
\<close>

lemma checkAllRemotes_found:
  assumes "\<forall>p\<in>set pre. normalizeGitHubUrl
             (map_option trim (exec (''git remote get-url '' @ p, gitRoot))) = None"
    and "normalizeGitHubUrl (map_option trim (exec (''git remote get-url '' @ r, gitRoot))) = Some k"
  shows "checkAllRemotes exec gitRoot (pre @ r # post) =
           (map (\<lambda>name. ''git remote get-url '' @ name) (pre @ [r]), Some k)"
  using assms
  by (induction pre) (simp_all add: recognized_normalizeGitHubUrl getRemoteUrl_def)

lemma checkAllRemotes_none:
  assumes "\<forall>p\<in>set names. normalizeGitHubUrl
             (map_option trim (exec (''git remote get-url '' @ p, gitRoot))) = None"
  shows "checkAllRemotes exec gitRoot names =
           (map (\<lambda>name. ''git remote get-url '' @ name) names, None)"
  using assms
  by (induction names) (simp_all add: recognized_normalizeGitHubUrl getRemoteUrl_def)

lemma normalizeGitHubUrl_None: "normalizeGitHubUrl None = None"
  by (simp add: normalizeGitHubUrl_def truthy_def)

lemma trim_remote_names: "trim ''fork\<newline>mirror\<newline>'' = ''fork\<newline>mirror''"
  by (simp add: trim_def is_space_def)

lemma trim_scp_widgets:
  "trim ''git@github.com:acme/widgets.git\<newline>'' = ''git@github.com:acme/widgets.git''"
  by (simp add: trim_def is_space_def)

lemma normalize_scp_widgets:
  "normalizeGitHubUrl (Some ''git@github.com:acme/widgets.git'') =
     Some ''https://github.com/acme/widgets''"
  by code_simp

text \<open>
  Claim C9. A \<open>repositoryUrl\<close> set to the empty string is treated as absent: the result,
  and the queries run, are those of the configuration without the key, and the empty
  string is never returned. Resolution falls through to the priority steps: the upstream
  remote is queried first and its normalised URL returned if it has one; else the origin
  remote, likewise; else the remotes are listed and the normalised URL of the first listed
  remote that has one is returned; else the result is absent.
\<close>

theorem getGitHubRepositoryUrl_empty_config:
  "config ''repositoryUrl'' = Some [] \<longrightarrow>
     getGitHubRepositoryUrl exec gitRoot config =
       getGitHubRepositoryUrl exec gitRoot (config(''repositoryUrl'' := None))
     \<and> snd (getGitHubRepositoryUrl exec gitRoot config) \<noteq> Some []
     \<and> take 1 (fst (getGitHubRepositoryUrl exec gitRoot config)) = [''git remote get-url upstream'']
     \<and> (normalizeGitHubUrl (map_option trim (exec (''git remote get-url upstream'', gitRoot))) = Some n
          \<longrightarrow> getGitHubRepositoryUrl exec gitRoot config =
                ([''git remote get-url upstream''], Some n))
     \<and> (normalizeGitHubUrl (map_option trim (exec (''git remote get-url upstream'', gitRoot))) = None
          \<and> normalizeGitHubUrl (map_option trim (exec (''git remote get-url origin'', gitRoot))) = Some m
          \<longrightarrow> getGitHubRepositoryUrl exec gitRoot config =
                ([''git remote get-url upstream'', ''git remote get-url origin''], Some m))
     \<and> (normalizeGitHubUrl (map_option trim (exec (''git remote get-url upstream'', gitRoot))) = None
          \<and> normalizeGitHubUrl (map_option trim (exec (''git remote get-url origin'', gitRoot))) = None
          \<and> (case exec (''git remote'', gitRoot) of
                None \<Rightarrow> []
              | Some out \<Rightarrow> filter (\<lambda>name. name \<noteq> []) (split_on CHR 0x0A (trim out))) =
              pre @ r # post
          \<and> (\<forall>p\<in>set pre. normalizeGitHubUrl
                (map_option trim (exec (''git remote get-url '' @ p, gitRoot))) = None)
          \<and> normalizeGitHubUrl (map_option trim (exec (''git remote get-url '' @ r, gitRoot))) = Some k
          \<longrightarrow> getGitHubRepositoryUrl exec gitRoot config =
                ([''git remote get-url upstream'', ''git remote get-url origin'', ''git remote'']
                   @ map (\<lambda>name. ''git remote get-url '' @ name) (pre @ [r]),
                 Some k))
     \<and> (normalizeGitHubUrl (map_option trim (exec (''git remote get-url upstream'', gitRoot))) = None
          \<and> normalizeGitHubUrl (map_option trim (exec (''git remote get-url origin'', gitRoot))) = None
          \<and> (case exec (''git remote'', gitRoot) of
                None \<Rightarrow> []
              | Some out \<Rightarrow> filter (\<lambda>name. name \<noteq> []) (split_on CHR 0x0A (trim out))) = names
          \<and> (\<forall>p\<in>set names. normalizeGitHubUrl
                (map_option trim (exec (''git remote get-url '' @ p, gitRoot))) = None)
          \<longrightarrow> getGitHubRepositoryUrl exec gitRoot config =
                ([''git remote get-url upstream'', ''git remote get-url origin'', ''git remote'']
                   @ map (\<lambda>name. ''git remote get-url '' @ name) names,
                 None))"
proof
  assume c: "config ''repositoryUrl'' = Some []"
  let ?up = "normalizeGitHubUrl (map_option trim (exec (''git remote get-url upstream'', gitRoot)))"
  let ?origin = "normalizeGitHubUrl (map_option trim (exec (''git remote get-url origin'', gitRoot)))"
  let ?names = "case exec (''git remote'', gitRoot) of
                None \<Rightarrow> []
              | Some out \<Rightarrow> filter (\<lambda>name. name \<noteq> []) (split_on CHR 0x0A (trim out))"
  let ?cmd = "\<lambda>name. ''git remote get-url '' @ name"
  have names: "getAllRemotes exec gitRoot = ([''git remote''], ?names)"
    by (simp add: getAllRemotes_def split: option.splits)
  have unfold: "getGitHubRepositoryUrl exec gitRoot config =
      (case ?up of
         Some n \<Rightarrow> ([''git remote get-url upstream''], Some n)
       | None \<Rightarrow>
           (case ?origin of
              Some m \<Rightarrow> ([''git remote get-url upstream'', ''git remote get-url origin''], Some m)
            | None \<Rightarrow>
                ([''git remote get-url upstream'', ''git remote get-url origin'', ''git remote'']
                   @ fst (checkAllRemotes exec gitRoot ?names),
                 snd (checkAllRemotes exec gitRoot ?names))))"
    using c
    by (simp add: getGitHubRepositoryUrl_def truthy_def recognized_normalizeGitHubUrl
        getRemoteUrl_def names Let_def split_beta split: option.splits)
  have eq: "getGitHubRepositoryUrl exec gitRoot config =
       getGitHubRepositoryUrl exec gitRoot (config(''repositoryUrl'' := None))"
    using c by (simp add: getGitHubRepositoryUrl_def truthy_def)
  have first: "take 1 (fst (getGitHubRepositoryUrl exec gitRoot config)) = [''git remote get-url upstream'']"
    unfolding unfold by (simp split: option.splits)
  have ne: "snd (checkAllRemotes exec gitRoot rs) \<noteq> Some []" for rs
  proof (induction rs)
    case Nil
    then show ?case by simp
  next
    case (Cons r rs)
    then show ?case
      using normalizeGitHubUrl_Some(3) [of "snd (getRemoteUrl exec gitRoot r)" "[]"]
      by (auto simp add: recognized_normalizeGitHubUrl truthy_def Let_def
          split: option.splits prod.splits)
  qed
  have nonempty: "snd (getGitHubRepositoryUrl exec gitRoot config) \<noteq> Some []"
    unfolding unfold
    using ne [of ?names] normalizeGitHubUrl_Some(3) [of _ "[]"]
    by (auto simp add: truthy_def split: option.splits)
  have up: "getGitHubRepositoryUrl exec gitRoot config = ([''git remote get-url upstream''], Some n)"
    if "?up = Some n"
    unfolding unfold using that by simp
  have origin: "getGitHubRepositoryUrl exec gitRoot config =
      ([''git remote get-url upstream'', ''git remote get-url origin''], Some m)"
    if "?up = None \<and> ?origin = Some m"
    unfolding unfold using that by simp
  have found: "getGitHubRepositoryUrl exec gitRoot config =
      ([''git remote get-url upstream'', ''git remote get-url origin'', ''git remote'']
         @ map ?cmd (pre @ [r]), Some k)"
    if "?up = None \<and> ?origin = None \<and> ?names = pre @ r # post
        \<and> (\<forall>p\<in>set pre. normalizeGitHubUrl (map_option trim (exec (?cmd p, gitRoot))) = None)
        \<and> normalizeGitHubUrl (map_option trim (exec (?cmd r, gitRoot))) = Some k"
  proof -
    from that have "checkAllRemotes exec gitRoot ?names = (map ?cmd (pre @ [r]), Some k)"
      using checkAllRemotes_found [of pre exec gitRoot r k post] by simp
    with that show ?thesis
      unfolding unfold by simp
  qed
  have none: "getGitHubRepositoryUrl exec gitRoot config =
      ([''git remote get-url upstream'', ''git remote get-url origin'', ''git remote'']
         @ map ?cmd names, None)"
    if "?up = None \<and> ?origin = None \<and> ?names = names
        \<and> (\<forall>p\<in>set names. normalizeGitHubUrl (map_option trim (exec (?cmd p, gitRoot))) = None)"
  proof -
    from that have "checkAllRemotes exec gitRoot ?names = (map ?cmd names, None)"
      using checkAllRemotes_none [of names exec gitRoot] by simp
    with that show ?thesis
      unfolding unfold by simp
  qed
  from eq nonempty first up origin found none
  show "getGitHubRepositoryUrl exec gitRoot config =
       getGitHubRepositoryUrl exec gitRoot (config(''repositoryUrl'' := None))
     \<and> snd (getGitHubRepositoryUrl exec gitRoot config) \<noteq> Some []
     \<and> take 1 (fst (getGitHubRepositoryUrl exec gitRoot config)) = [''git remote get-url upstream'']
     \<and> (?up = Some n
          \<longrightarrow> getGitHubRepositoryUrl exec gitRoot config =
                ([''git remote get-url upstream''], Some n))
     \<and> (?up = None \<and> ?origin = Some m
          \<longrightarrow> getGitHubRepositoryUrl exec gitRoot config =
                ([''git remote get-url upstream'', ''git remote get-url origin''], Some m))
     \<and> (?up = None \<and> ?origin = None \<and> ?names = pre @ r # post
          \<and> (\<forall>p\<in>set pre. normalizeGitHubUrl (map_option trim (exec (?cmd p, gitRoot))) = None)
          \<and> normalizeGitHubUrl (map_option trim (exec (?cmd r, gitRoot))) = Some k
          \<longrightarrow> getGitHubRepositoryUrl exec gitRoot config =
                ([''git remote get-url upstream'', ''git remote get-url origin'', ''git remote'']
                   @ map ?cmd (pre @ [r]), Some k))
     \<and> (?up = None \<and> ?origin = None \<and> ?names = names
          \<and> (\<forall>p\<in>set names. normalizeGitHubUrl (map_option trim (exec (?cmd p, gitRoot))) = None)
          \<longrightarrow> getGitHubRepositoryUrl exec gitRoot config =
                ([''git remote get-url upstream'', ''git remote get-url origin'', ''git remote'']
                   @ map ?cmd names, None))"
    by (intro conjI impI)
qed

theorem getGitHubRepositoryUrl_empty_config_witness:
  "[''repositoryUrl'' \<mapsto> ''''] ''repositoryUrl'' = Some ''''
   \<and> getGitHubRepositoryUrl
       [(''git remote get-url upstream'', ''/repo'') \<mapsto> ''https://github.com/acme/widgets\<newline>'']
       ''/repo'' [''repositoryUrl'' \<mapsto> ''''] =
     ([''git remote get-url upstream''], Some ''https://github.com/acme/widgets'')
   \<and> getGitHubRepositoryUrl
       [(''git remote get-url upstream'', ''/repo'') \<mapsto> ''https://gitlab.com/acme/fork\<newline>'',
        (''git remote get-url origin'', ''/repo'') \<mapsto> ''https://github.com/acme/fork\<newline>'']
       ''/repo'' [''repositoryUrl'' \<mapsto> ''''] =
     ([''git remote get-url upstream'', ''git remote get-url origin''],
      Some ''https://github.com/acme/fork'')
   \<and> getGitHubRepositoryUrl
       [(''git remote'', ''/repo'') \<mapsto> ''fork\<newline>mirror\<newline>'',
        (''git remote get-url fork'', ''/repo'') \<mapsto> ''https://gitlab.com/acme/fork\<newline>'',
        (''git remote get-url mirror'', ''/repo'') \<mapsto> ''git@github.com:acme/widgets.git\<newline>'']
       ''/repo'' [''repositoryUrl'' \<mapsto> ''''] =
     ([''git remote get-url upstream'', ''git remote get-url origin'', ''git remote'',
       ''git remote get-url fork'', ''git remote get-url mirror''],
      Some ''https://github.com/acme/widgets'')
   \<and> getGitHubRepositoryUrl Map.empty ''/repo'' [''repositoryUrl'' \<mapsto> ''''] =
     ([''git remote get-url upstream'', ''git remote get-url origin'', ''git remote''], None)
   \<and> getGitHubRepositoryUrl Map.empty ''/repo'' [''repositoryUrl'' \<mapsto> ''''] =
     getGitHubRepositoryUrl Map.empty ''/repo'' ([''repositoryUrl'' \<mapsto> ''''](''repositoryUrl'' := None))"
proof -
  let ?c = "[''repositoryUrl'' \<mapsto> '''']"
  let ?e1 = "[(''git remote get-url upstream'', ''/repo'') \<mapsto> ''https://github.com/acme/widgets\<newline>'']"
  let ?e2 = "[(''git remote get-url upstream'', ''/repo'') \<mapsto> ''https://gitlab.com/acme/fork\<newline>'',
        (''git remote get-url origin'', ''/repo'') \<mapsto> ''https://github.com/acme/fork\<newline>'']"
  let ?e3 = "[(''git remote'', ''/repo'') \<mapsto> ''fork\<newline>mirror\<newline>'',
        (''git remote get-url fork'', ''/repo'') \<mapsto> ''https://gitlab.com/acme/fork\<newline>'',
        (''git remote get-url mirror'', ''/repo'') \<mapsto> ''git@github.com:acme/widgets.git\<newline>'']"
  have h: "?c ''repositoryUrl'' = Some ''''"
    by simp
  have a: "getGitHubRepositoryUrl ?e1 ''/repo'' ?c =
      ([''git remote get-url upstream''], Some ''https://github.com/acme/widgets'')"
    using getGitHubRepositoryUrl_empty_config
      [where config = ?c and exec = ?e1 and gitRoot = "''/repo''"
         and n = "''https://github.com/acme/widgets''", THEN mp, OF h, THEN conjunct2, THEN conjunct2, THEN conjunct2, THEN conjunct1]
    by (simp add: trim_upstream_widgets normalize_widgets)
  have b: "getGitHubRepositoryUrl ?e2 ''/repo'' ?c =
      ([''git remote get-url upstream'', ''git remote get-url origin''],
       Some ''https://github.com/acme/fork'')"
    using getGitHubRepositoryUrl_empty_config
      [where config = ?c and exec = ?e2 and gitRoot = "''/repo''"
         and m = "''https://github.com/acme/fork''", THEN mp, OF h, THEN conjunct2, THEN conjunct2, THEN conjunct2, THEN conjunct2, THEN conjunct1]
    by (simp add: trim_gitlab trim_fork normalize_gitlab normalize_fork)
  have c: "getGitHubRepositoryUrl ?e3 ''/repo'' ?c =
      ([''git remote get-url upstream'', ''git remote get-url origin'', ''git remote'',
        ''git remote get-url fork'', ''git remote get-url mirror''],
       Some ''https://github.com/acme/widgets'')"
    using getGitHubRepositoryUrl_empty_config
      [where config = ?c and exec = ?e3 and gitRoot = "''/repo''"
         and pre = "[''fork'']" and r = "''mirror''" and post = "[]"
         and k = "''https://github.com/acme/widgets''", THEN mp, OF h, THEN conjunct2, THEN conjunct2, THEN conjunct2, THEN conjunct2, THEN conjunct2, THEN conjunct1]
    by (simp add: normalizeGitHubUrl_None trim_remote_names trim_gitlab normalize_gitlab
        trim_scp_widgets normalize_scp_widgets)
  have d: "getGitHubRepositoryUrl Map.empty ''/repo'' ?c =
      ([''git remote get-url upstream'', ''git remote get-url origin'', ''git remote''], None)"
    using getGitHubRepositoryUrl_empty_config
      [where config = ?c and exec = Map.empty and gitRoot = "''/repo''"
         and names = "[]", THEN mp, OF h, THEN conjunct2, THEN conjunct2, THEN conjunct2, THEN conjunct2, THEN conjunct2, THEN conjunct2]
    by (simp add: normalizeGitHubUrl_None)
  note e = getGitHubRepositoryUrl_empty_config
      [where config = ?c and exec = Map.empty and gitRoot = "''/repo''", THEN mp, OF h,
        THEN conjunct1]
  from h a b c d e show ?thesis by (intro conjI)
qed




subsection \<open>Normalisation of remote URLs\<close>

text \<open>
  The matcher on the pattern of \<open>normalizeGitHubUrl\<close>, step by step: a literal string, the
  end of the pattern, the two groups, and then the whole pattern at a position where the
  host marker stands.
\<close>

lemma run_str: "run (str p) s c = (if prefix p s then [(drop (length p) s, c)] else [])"
proof (induction p arbitrary: s)
  case Nil
  then show ?case by simp
next
  case (Cons a p)
  then show ?case by (cases s) (simp_all add: lit_def)
qed

lemma run_slash_end:
  "run (seqs [Opt (lit CHR ''/''), EndOfInput]) y c =
     (if y = [] \<or> y = ''/'' then [([], c)] else [])"
proof (cases y)
  case Nil
  then show ?thesis by (simp add: lit_def)
next
  case (Cons a z)
  then show ?thesis by (cases z) (simp_all add: lit_def)
qed

lemma run_github_suffix_re:
  "run github_suffix_re x c = (if x \<in> github_suffixes then [([], c)] else [])"
proof (cases "prefix ''.git'' x")
  case True
  then obtain y where x: "x = ''.git'' @ y"
    by (auto elim: prefixE)
  have "run github_suffix_re x c =
          run (seqs [Opt (lit CHR ''/''), EndOfInput]) y c
          @ run (seqs [Opt (lit CHR ''/''), EndOfInput]) x c"
    unfolding github_suffix_re_def x by (simp add: run_str del: str.simps)
  then show ?thesis
    unfolding run_slash_end by (auto simp add: x github_suffixes_def)
next
  case False
  have "run github_suffix_re x c = run (seqs [Opt (lit CHR ''/''), EndOfInput]) x c"
    unfolding github_suffix_re_def using False by (simp add: run_str del: str.simps)
  then show ?thesis
    unfolding run_slash_end using False by (auto simp add: github_suffixes_def)
qed

lemma set_counts: "k \<in> set (counts q m n) \<Longrightarrow> m \<le> k \<and> k \<le> n"
  by (cases q) auto

lemma run_Group_Rep:
  "run (Group i (Rep q m P)) s c =
     map (\<lambda>k. (drop k s, c(i \<mapsto> take k s))) (counts q m (length (takeWhile P s)))"
proof -
  have "length s - length (drop k s) = k" if "k \<in> set (counts q m (length (takeWhile P s)))" for k
  proof -
    from that have "k \<le> length (takeWhile P s)"
      by (simp add: set_counts)
    also have "\<dots> \<le> length s"
      by (rule length_takeWhile_le)
    finally show ?thesis by simp
  qed
  then show ?thesis by (simp cong: map_cong)
qed

lemma concat_map_if:
  "concat (map (\<lambda>k. if Q k then [g k] else []) ks) = map g (filter Q ks)"
  by (induction ks) simp_all

lemma run_lit_Seq:
  "run (Seq (lit a) r) t c = (case t of [] \<Rightarrow> [] | x # xs \<Rightarrow> if x = a then run r xs c else [])"
  by (cases t) (simp_all add: lit_def)

lemma run_org:
  "run (Seq (Group 1 (Rep Greedy 1 not_slash)) (Seq (lit CHR ''/'') r)) s c =
     (if takeWhile not_slash s \<noteq> [] \<and> dropWhile not_slash s \<noteq> []
      then run r (tl (dropWhile not_slash s)) (c(1 \<mapsto> takeWhile not_slash s))
      else [])"
proof -
  define n where "n = length (takeWhile not_slash s)"
  define f where "f = (\<lambda>k. run (Seq (lit CHR ''/'') r) (drop k s) (c(1 \<mapsto> take k s)))"
  have run: "run (Seq (Group 1 (Rep Greedy 1 not_slash)) (Seq (lit CHR ''/'') r)) s c =
               concat (map f (rev [1..<Suc n]))"
    unfolding run.simps(3) run_Group_Rep by (simp add: n_def f_def comp_def rev_map)
  have short: "f k = []" if "k < n" for k
  proof -
    from that have k: "k < length s"
      using length_takeWhile_le [of not_slash s] by (simp add: n_def)
    from that have "not_slash (s ! k)"
      unfolding n_def by (metis nth_mem takeWhile_nth set_takeWhileD)
    with k show ?thesis
      by (simp add: f_def run_lit_Seq Cons_nth_drop_Suc [symmetric] not_slash_def del: run.simps)
  qed
  have tw: "take n s = takeWhile not_slash s" and dw: "drop n s = dropWhile not_slash s"
    by (simp_all add: n_def takeWhile_eq_take [symmetric] dropWhile_eq_drop [symmetric])
  show ?thesis
  proof (cases "n = 0")
    case True
    then have "takeWhile not_slash s = []"
      by (simp add: n_def)
    with True show ?thesis
      unfolding run by simp
  next
    case False
    then have "rev [1..<Suc n] = n # rev [1..<n]"
      by simp
    moreover have "concat (map f (rev [1..<n])) = []"
      by (simp add: short)
    ultimately have "concat (map f (rev [1..<Suc n])) = f n"
      by simp
    moreover have "f n = (if dropWhile not_slash s \<noteq> []
      then run r (tl (dropWhile not_slash s)) (c(1 \<mapsto> takeWhile not_slash s)) else [])"
    proof (cases "dropWhile not_slash s")
      case Nil
      show ?thesis unfolding f_def tw dw run_lit_Seq Nil by simp
    next
      case (Cons x xs)
      then have "\<not> not_slash x"
        using hd_dropWhile [of not_slash s] by simp
      then show ?thesis unfolding f_def tw dw run_lit_Seq Cons by (simp add: not_slash_def)
    qed
    ultimately have "run (Seq (Group 1 (Rep Greedy 1 not_slash)) (Seq (lit CHR ''/'') r)) s c =
      (if dropWhile not_slash s \<noteq> []
       then run r (tl (dropWhile not_slash s)) (c(1 \<mapsto> takeWhile not_slash s)) else [])"
      using run by simp
    moreover from False have "takeWhile not_slash s \<noteq> []"
      by (simp add: n_def)
    ultimately show ?thesis
      by (simp del: run.simps)
  qed
qed

lemma run_repo:
  "run (Seq (Group 2 (Rep Lazy 1 not_slash)) github_suffix_re) t c =
     map (\<lambda>k. ([], c(2 \<mapsto> take k t)))
       (filter (\<lambda>k. drop k t \<in> github_suffixes) [1..<Suc (length (takeWhile not_slash t))])"
  unfolding run.simps(3) run_Group_Rep
  by (simp add: comp_def run_github_suffix_re concat_map_if)

lemma github_re_unfold:
  "github_re =
     Seq (str ''github.com'')
       (Seq (Atom (\<lambda>x. x = CHR '':'' \<or> x = CHR ''/''))
          (Seq (Group 1 (Rep Greedy 1 not_slash))
             (Seq (lit CHR ''/'') (Seq (Group 2 (Rep Lazy 1 not_slash)) github_suffix_re))))"
  by (simp add: github_re_def github_suffix_re_def)

lemma run_github_re_no_host: "\<not> prefix ''github.com'' s \<Longrightarrow> run github_re s c = []"
  unfolding github_re_unfold run.simps(3) run_str by simp

lemma run_github_re_host_only: "run github_re ''github.com'' c = []"
  unfolding github_re_unfold run.simps(3) run_str by simp

lemma run_github_re_at:
  "run github_re (''github.com'' @ sep # t) c =
     (if (sep = CHR '':'' \<or> sep = CHR ''/'')
         \<and> takeWhile not_slash t \<noteq> [] \<and> dropWhile not_slash t \<noteq> []
      then map (\<lambda>k. ([], c(1 \<mapsto> takeWhile not_slash t,
                             2 \<mapsto> take k (tl (dropWhile not_slash t)))))
             (filter (\<lambda>k. drop k (tl (dropWhile not_slash t)) \<in> github_suffixes)
                [1..<Suc (length (takeWhile not_slash (tl (dropWhile not_slash t))))])
      else [])"
proof -
  have "run github_re (''github.com'' @ sep # t) c =
          (if sep = CHR '':'' \<or> sep = CHR ''/'' then
             run (Seq (Group 1 (Rep Greedy 1 not_slash))
               (Seq (lit CHR ''/'') (Seq (Group 2 (Rep Lazy 1 not_slash)) github_suffix_re))) t c
           else [])"
    unfolding github_re_unfold run.simps(3) [of "str ''github.com''"] run_str
    unfolding run.simps(3) [of "Atom (\<lambda>x. x = CHR '':'' \<or> x = CHR ''/'')"]
    by (simp del: run.simps(3))
  then show ?thesis
    unfolding run_org run_repo by simp
qed

lemma takeWhile_segment:
  assumes "CHR ''/'' \<notin> set w"
  shows "takeWhile not_slash (w @ CHR ''/'' # t) = w"
    and "dropWhile not_slash (w @ CHR ''/'' # t) = CHR ''/'' # t"
  using assms by (auto simp add: takeWhile_tail not_slash_def dropWhile_append3)

lemma length_takeWhile_segment:
  assumes "CHR ''/'' \<notin> set w"
  shows "length w \<le> length (takeWhile not_slash (w @ t))"
proof -
  have "takeWhile not_slash (w @ t) = w @ takeWhile not_slash t"
    by (rule takeWhile_append2) (use assms in \<open>auto simp add: not_slash_def\<close>)
  then show ?thesis by simp
qed

lemma upt_split:
  assumes "m \<le> k" and "k \<le> n"
  shows "[m..<Suc n] = [m..<k] @ k # [Suc k..<Suc n]"
  using assms upt_add_eq_append [of m k "Suc n - k"] upt_conv_Cons [of k "Suc n"]
  by simp

lemma suffix_after_tail:
  assumes "d \<noteq> []" and "suf \<in> github_suffixes" and "d @ suf \<in> github_suffixes"
    and "CHR ''/'' \<notin> set d"
  shows "d = ''.git'' \<and> (suf = [] \<or> suf = ''/'')"
  using assms
  by (auto simp add: github_suffixes_def append_eq_Cons_conv Cons_eq_append_conv)

lemma run_github_re_form:
  assumes sep: "sep = CHR '':'' \<or> sep = CHR ''/''"
    and org: "org \<noteq> []" "CHR ''/'' \<notin> set org"
    and repo: "repo \<noteq> []" "CHR ''/'' \<notin> set repo"
    and suf: "suf \<in> github_suffixes"
    and stem: "suf = [] \<or> suf = ''/'' \<Longrightarrow> \<not> (\<exists>x. x \<noteq> [] \<and> repo = x @ ''.git'')"
  shows "\<exists>rest. run github_re (''github.com'' @ sep # org @ ''/'' @ repo @ suf) c =
           ([], c(1 \<mapsto> org, 2 \<mapsto> repo)) # rest"
proof -
  let ?t = "repo @ suf"
  let ?Q = "\<lambda>k. drop k ?t \<in> github_suffixes"
  let ?n = "length (takeWhile not_slash ?t)"
  have le: "length repo \<le> ?n"
    using repo(2) by (rule length_takeWhile_segment)
  have early: "\<not> ?Q k" if "k \<in> set [1..<length repo]" for k
  proof
    assume q: "?Q k"
    from that have k: "1 \<le> k" "k < length repo"
      by simp_all
    then have d: "drop k repo \<noteq> []" "CHR ''/'' \<notin> set (drop k repo)"
      using repo(2) by (auto dest: in_set_dropD)
    from q k have "drop k repo @ suf \<in> github_suffixes"
      by simp
    with d suf have "drop k repo = ''.git'' \<and> (suf = [] \<or> suf = ''/'')"
      by (intro suffix_after_tail)
    moreover have "repo = take k repo @ drop k repo"
      by simp
    moreover from k have "take k repo \<noteq> []"
      using repo(1) by (cases repo) auto
    ultimately show False
      using stem by metis
  qed
  from repo(1) le have "[1..<Suc ?n] = [1..<length repo] @ length repo # [Suc (length repo)..<Suc ?n]"
    by (intro upt_split) (simp_all add: Suc_leI)
  moreover have "filter ?Q [1..<length repo] = []"
    using early by (simp add: filter_empty_conv)
  moreover have "?Q (length repo)"
    using suf by simp
  ultimately have "filter ?Q [1..<Suc ?n] = length repo # filter ?Q [Suc (length repo)..<Suc ?n]"
    by simp
  then show ?thesis
    unfolding append_Cons append_Nil
    using sep org repo
    by (simp add: run_github_re_at [unfolded append_Cons append_Nil] takeWhile_segment)
qed

lemma re_match_here: "run r s Map.empty = (s', c) # rest \<Longrightarrow> re_match r s = Some c"
  by (cases s) simp_all

lemma re_match_github_re_form:
  assumes "sep = CHR '':'' \<or> sep = CHR ''/''"
    and "org \<noteq> []" "CHR ''/'' \<notin> set org"
    and "repo \<noteq> []" "CHR ''/'' \<notin> set repo"
    and "suf \<in> github_suffixes"
    and "suf = [] \<or> suf = ''/'' \<Longrightarrow> \<not> (\<exists>x. x \<noteq> [] \<and> repo = x @ ''.git'')"
  shows "re_match github_re (''github.com'' @ sep # org @ ''/'' @ repo @ suf) =
           Some [1 \<mapsto> org, 2 \<mapsto> repo]"
proof -
  from run_github_re_form [OF assms, of Map.empty]
  obtain rest where "run github_re (''github.com'' @ sep # org @ ''/'' @ repo @ suf) Map.empty =
           ([], [1 \<mapsto> org, 2 \<mapsto> repo]) # rest"
    by blast
  then show ?thesis by (rule re_match_here)
qed

lemma re_match_github_re_https: "re_match github_re (''https://'' @ s) = re_match github_re s"
  by (simp add: run_github_re_no_host)

lemma re_match_github_re_scp: "re_match github_re (''git@'' @ s) = re_match github_re s"
  by (simp add: run_github_re_no_host)

lemma re_match_github_re_ssh: "re_match github_re (''ssh://git@'' @ s) = re_match github_re s"
  by (simp add: run_github_re_no_host)

lemma normalizeGitHubUrl_form:
  assumes "re_match github_re url = re_match github_re (''github.com'' @ sep # org @ ''/'' @ repo @ suf)"
    and "url \<noteq> []"
    and "sep = CHR '':'' \<or> sep = CHR ''/''"
    and "org \<noteq> []" "CHR ''/'' \<notin> set org"
    and "repo \<noteq> []" "CHR ''/'' \<notin> set repo"
    and "suf \<in> github_suffixes"
    and "suf = [] \<or> suf = ''/'' \<Longrightarrow> \<not> (\<exists>x. x \<noteq> [] \<and> repo = x @ ''.git'')"
  shows "normalizeGitHubUrl (Some url) = Some (''https://github.com/'' @ org @ ''/'' @ repo)"
  using assms(1,2) re_match_github_re_form [OF assms(3-)]
  by (simp add: normalizeGitHubUrl_def truthy_def group_def)

lemma normalizeGitHubUrl_forms:
  assumes "org \<noteq> []" "CHR ''/'' \<notin> set org" "repo \<noteq> []" "CHR ''/'' \<notin> set repo"
  shows "normalizeGitHubUrl (Some (''https://github.com/'' @ org @ ''/'' @ repo @ ''.git'')) =
           Some (''https://github.com/'' @ org @ ''/'' @ repo)"
    and "normalizeGitHubUrl (Some (''git@github.com:'' @ org @ ''/'' @ repo @ ''.git'')) =
           Some (''https://github.com/'' @ org @ ''/'' @ repo)"
    and "normalizeGitHubUrl (Some (''ssh://git@github.com/'' @ org @ ''/'' @ repo @ ''.git'')) =
           Some (''https://github.com/'' @ org @ ''/'' @ repo)"
    and "(suffix ''.git'' repo \<Longrightarrow> repo = ''.git'') \<Longrightarrow>
         normalizeGitHubUrl (Some (''https://github.com/'' @ org @ ''/'' @ repo)) =
           Some (''https://github.com/'' @ org @ ''/'' @ repo)"
    and "normalizeGitHubUrl (Some (''https://github.com/'' @ org @ ''/'' @ repo @ ''.git/'')) =
           Some (''https://github.com/'' @ org @ ''/'' @ repo)"
    and "(suffix ''.git'' repo \<Longrightarrow> repo = ''.git'') \<Longrightarrow>
         normalizeGitHubUrl (Some (''https://github.com/'' @ org @ ''/'' @ repo @ ''/'')) =
           Some (''https://github.com/'' @ org @ ''/'' @ repo)"
proof -
  show "normalizeGitHubUrl (Some (''https://github.com/'' @ org @ ''/'' @ repo @ ''.git'')) =
           Some (''https://github.com/'' @ org @ ''/'' @ repo)"
    using assms re_match_github_re_https [of "''github.com/'' @ org @ ''/'' @ repo @ ''.git''"]
    by (intro normalizeGitHubUrl_form [where sep = "CHR ''/''" and suf = "''.git''"])
       (simp_all add: github_suffixes_def)
  show "normalizeGitHubUrl (Some (''git@github.com:'' @ org @ ''/'' @ repo @ ''.git'')) =
           Some (''https://github.com/'' @ org @ ''/'' @ repo)"
    using assms re_match_github_re_scp [of "''github.com:'' @ org @ ''/'' @ repo @ ''.git''"]
    by (intro normalizeGitHubUrl_form [where sep = "CHR '':''" and suf = "''.git''"])
       (simp_all add: github_suffixes_def)
  show "normalizeGitHubUrl (Some (''ssh://git@github.com/'' @ org @ ''/'' @ repo @ ''.git'')) =
           Some (''https://github.com/'' @ org @ ''/'' @ repo)"
    using assms re_match_github_re_ssh [of "''github.com/'' @ org @ ''/'' @ repo @ ''.git''"]
    by (intro normalizeGitHubUrl_form [where sep = "CHR ''/''" and suf = "''.git''"])
       (simp_all add: github_suffixes_def)
  show "normalizeGitHubUrl (Some (''https://github.com/'' @ org @ ''/'' @ repo @ ''.git/'')) =
           Some (''https://github.com/'' @ org @ ''/'' @ repo)"
    using assms re_match_github_re_https [of "''github.com/'' @ org @ ''/'' @ repo @ ''.git/''"]
    by (intro normalizeGitHubUrl_form [where sep = "CHR ''/''" and suf = "''.git/''"])
       (simp_all add: github_suffixes_def)
  show "normalizeGitHubUrl (Some (''https://github.com/'' @ org @ ''/'' @ repo)) =
           Some (''https://github.com/'' @ org @ ''/'' @ repo)" if "suffix ''.git'' repo \<Longrightarrow> repo = ''.git''"
    using assms that re_match_github_re_https [of "''github.com/'' @ org @ ''/'' @ repo"]
    by (intro normalizeGitHubUrl_form [where sep = "CHR ''/''" and suf = "[]"])
       (auto simp add: github_suffixes_def suffix_def)
  show "normalizeGitHubUrl (Some (''https://github.com/'' @ org @ ''/'' @ repo @ ''/'')) =
           Some (''https://github.com/'' @ org @ ''/'' @ repo)" if "suffix ''.git'' repo \<Longrightarrow> repo = ''.git''"
    using assms that re_match_github_re_https [of "''github.com/'' @ org @ ''/'' @ repo @ ''/''"]
    by (intro normalizeGitHubUrl_form [where sep = "CHR ''/''" and suf = "''/''"])
       (auto simp add: github_suffixes_def suffix_def)
qed

lemma re_match_SomeD:
  "re_match r u = Some c \<Longrightarrow> \<exists>pre s s' rest. u = pre @ s \<and> run r s Map.empty = (s', c) # rest"
proof (induction u)
  case Nil
  then show ?case by (auto split: list.splits)
next
  case (Cons x xs)
  show ?case
  proof (cases "run r (x # xs) Map.empty")
    case Nil
    with Cons.prems have "re_match r xs = Some c"
      by simp
    from Cons.IH [OF this] obtain pre s s' rest
      where "xs = pre @ s" "run r s Map.empty = (s', c) # rest"
      by blast
    then have "x # xs = (x # pre) @ s \<and> run r s Map.empty = (s', c) # rest"
      by simp
    then show ?thesis by blast
  next
    case (Cons p ps)
    with Cons.prems have "x # xs = [] @ (x # xs) \<and> run r (x # xs) Map.empty = (fst p, c) # ps"
      by (cases p) simp
    then show ?thesis by blast
  qed
qed


lemma run_github_re_D:
  assumes "(s', c) \<in> set (run github_re s c0)"
  shows "\<exists>sep org repo suf.
           s = ''github.com'' @ sep # org @ ''/'' @ repo @ suf
           \<and> (sep = CHR '':'' \<or> sep = CHR ''/'')
           \<and> org \<noteq> [] \<and> CHR ''/'' \<notin> set org
           \<and> repo \<noteq> [] \<and> CHR ''/'' \<notin> set repo
           \<and> suf \<in> github_suffixes
           \<and> c = c0(1 \<mapsto> org, 2 \<mapsto> repo)"
proof -
  have "prefix ''github.com'' s"
  proof (rule ccontr)
    assume "\<not> prefix ''github.com'' s"
    then have "run github_re s c0 = []"
      by (rule run_github_re_no_host)
    with assms show False by simp
  qed
  then obtain t where s: "s = ''github.com'' @ t"
    by (auto elim: prefixE)
  with assms have "t \<noteq> []"
    using run_github_re_host_only [of c0] by auto
  then obtain sep t1 where t: "t = sep # t1"
    by (cases t) auto
  define org where "org = takeWhile not_slash t1"
  define t2 where "t2 = tl (dropWhile not_slash t1)"
  from assms have cond: "sep = CHR '':'' \<or> sep = CHR ''/''" "org \<noteq> []" "dropWhile not_slash t1 \<noteq> []"
    unfolding s t run_github_re_at org_def by (auto split: if_splits)
  from assms cond obtain k where k: "1 \<le> k" "k \<le> length (takeWhile not_slash t2)"
      "drop k t2 \<in> github_suffixes" "c = c0(1 \<mapsto> org, 2 \<mapsto> take k t2)"
    unfolding s t run_github_re_at org_def t2_def by auto
  have "hd (dropWhile not_slash t1) = CHR ''/''"
    using cond(3) hd_dropWhile [of not_slash t1] by (simp add: not_slash_def)
  with cond(3) have dw: "dropWhile not_slash t1 = CHR ''/'' # t2"
    by (cases "dropWhile not_slash t1") (simp_all add: t2_def)
  have "t1 = org @ dropWhile not_slash t1"
    by (simp add: org_def)
  with dw have t1: "t1 = org @ ''/'' @ take k t2 @ drop k t2"
    by simp
  have org_slash: "CHR ''/'' \<notin> set org"
    unfolding org_def using set_takeWhileD [of "CHR ''/''" not_slash t1]
    by (auto simp add: not_slash_def)
  from k(1,2) have "take k t2 \<noteq> []"
    by (cases t2) auto
  moreover have "take k t2 = take k (takeWhile not_slash t2)"
    using k(2) by (metis takeWhile_eq_take take_take min.absorb1)
  then have "CHR ''/'' \<notin> set (take k t2)"
    using set_takeWhileD [of "CHR ''/''" not_slash t2]
    by (auto simp add: not_slash_def dest: in_set_takeD)
  ultimately show ?thesis
    using cond(1,2) org_slash k(3,4) s t t1 by blast
qed

lemma normalizeGitHubUrl_SomeD:
  assumes "normalizeGitHubUrl (Some url) = Some n"
  shows "\<exists>pre sep org repo suf.
           url = pre @ ''github.com'' @ sep # org @ ''/'' @ repo @ suf
           \<and> (sep = CHR '':'' \<or> sep = CHR ''/'')
           \<and> org \<noteq> [] \<and> CHR ''/'' \<notin> set org
           \<and> repo \<noteq> [] \<and> CHR ''/'' \<notin> set repo
           \<and> suf \<in> github_suffixes
           \<and> n = ''https://github.com/'' @ org @ ''/'' @ repo"
proof -
  from assms obtain c where c: "re_match github_re url = Some c"
    and n: "n = ''https://github.com/'' @ group c 1 @ ''/'' @ group c 2"
    by (auto simp add: normalizeGitHubUrl_def split: if_splits option.splits)
  from re_match_SomeD [OF c] obtain pre s s' rest
    where u: "url = pre @ s" and "run github_re s Map.empty = (s', c) # rest"
    by blast
  then have "(s', c) \<in> set (run github_re s Map.empty)"
    by simp
  from run_github_re_D [OF this] obtain sep org repo suf
    where d: "s = ''github.com'' @ sep # org @ ''/'' @ repo @ suf"
      "sep = CHR '':'' \<or> sep = CHR ''/''"
      "org \<noteq> []" "CHR ''/'' \<notin> set org" "repo \<noteq> []" "CHR ''/'' \<notin> set repo"
      "suf \<in> github_suffixes" "c = [1 \<mapsto> org, 2 \<mapsto> repo]"
    by blast
  have "n = ''https://github.com/'' @ org @ ''/'' @ repo"
    unfolding n d(8) by (simp add: group_def)
  moreover have "url = pre @ ''github.com'' @ sep # org @ ''/'' @ repo @ suf"
    unfolding u d(1) ..
  ultimately show ?thesis
    using d(2-7) by blast
qed





text \<open>
  Claim C7, as amended. Normalising \<open>https://github.com/<org>/<repo>\<close> returns it
  unchanged for every organisation and repository segment (non-empty, without a slash)
  whose repository segment is not a non-empty name followed by \<open>.git\<close>; and
  \<open>normalize (normalize u) = normalize u\<close> whenever \<open>normalize u\<close> succeeds with a URL of
  that kind, that is, one that does not end in \<open>.git\<close> unless it ends in \<open>/.git\<close>.
\<close>

theorem normalizeGitHubUrl_idempotent:
  "(org \<noteq> [] \<and> CHR ''/'' \<notin> set org \<and> repo \<noteq> [] \<and> CHR ''/'' \<notin> set repo
      \<and> (suffix ''.git'' repo \<longrightarrow> repo = ''.git'') \<longrightarrow>
      normalizeGitHubUrl (Some (''https://github.com/'' @ org @ ''/'' @ repo)) =
        Some (''https://github.com/'' @ org @ ''/'' @ repo))
   \<and> (normalizeGitHubUrl (Some url) = Some n \<and> (suffix ''.git'' n \<longrightarrow> suffix ''/.git'' n) \<longrightarrow>
        normalizeGitHubUrl (normalizeGitHubUrl (Some url)) = normalizeGitHubUrl (Some url))"
proof (intro conjI impI)
  assume "org \<noteq> [] \<and> CHR ''/'' \<notin> set org \<and> repo \<noteq> [] \<and> CHR ''/'' \<notin> set repo
      \<and> (suffix ''.git'' repo \<longrightarrow> repo = ''.git'')"
  then show "normalizeGitHubUrl (Some (''https://github.com/'' @ org @ ''/'' @ repo)) =
        Some (''https://github.com/'' @ org @ ''/'' @ repo)"
    by (intro normalizeGitHubUrl_forms(4)) simp_all
next
  assume a: "normalizeGitHubUrl (Some url) = Some n \<and> (suffix ''.git'' n \<longrightarrow> suffix ''/.git'' n)"
  from normalizeGitHubUrl_SomeD [of url n] a obtain org repo
    where n: "n = ''https://github.com/'' @ org @ ''/'' @ repo"
      and s: "org \<noteq> []" "CHR ''/'' \<notin> set org" "repo \<noteq> []" "CHR ''/'' \<notin> set repo"
    by blast
  have "repo = ''.git''" if "suffix ''.git'' repo"
  proof -
    from that obtain x where x: "repo = x @ ''.git''"
      by (auto simp add: suffix_def)
    then have "suffix ''.git'' n"
      unfolding n by (simp add: suffix_def)
    with a obtain y where "n = y @ ''/.git''"
      by (auto simp add: suffix_def)
    then have "''https://github.com/'' @ org @ ''/'' @ x = y @ ''/''"
      unfolding n x by simp
    then have "x = [] \<or> last x = CHR ''/''"
      by (metis append_is_Nil_conv last_appendR last_snoc)
    moreover have "last x \<in> set repo" if "x \<noteq> []"
      unfolding x using that by simp
    ultimately have "x = []"
      using s(4) by metis
    with x show ?thesis by simp
  qed
  with s have "normalizeGitHubUrl (Some n) = Some n"
    unfolding n by (intro normalizeGitHubUrl_forms(4)) simp_all
  with a show "normalizeGitHubUrl (normalizeGitHubUrl (Some url)) = normalizeGitHubUrl (Some url)"
    by simp
qed

theorem normalizeGitHubUrl_idempotent_witness:
  "normalizeGitHubUrl (Some ''https://github.com/acme/widgets'') =
     Some ''https://github.com/acme/widgets''
   \<and> normalizeGitHubUrl (normalizeGitHubUrl (Some ''git@github.com:acme/widgets.git'')) =
       normalizeGitHubUrl (Some ''git@github.com:acme/widgets.git'')"
proof -
  have n: "normalizeGitHubUrl (Some ''git@github.com:acme/widgets.git'') =
     Some ''https://github.com/acme/widgets''"
    by code_simp
  have s: "suffix ''.git'' ''https://github.com/acme/widgets'' \<longrightarrow>
      suffix ''/.git'' ''https://github.com/acme/widgets''"
    by (simp add: suffix_to_prefix)
  from normalizeGitHubUrl_idempotent
    [of "''acme''" "''widgets''" "''git@github.com:acme/widgets.git''"
        "''https://github.com/acme/widgets''"]
    n s
  show ?thesis by (simp add: suffix_to_prefix)
qed

text \<open>
  Claim C7, as stated, fails where the normalised URL still ends in \<open>.git\<close>: the pattern
  strips one \<open>.git\<close> ending, so a repository segment \<open>widgets.git.git\<close> loses one at
  each normalisation.
\<close>

theorem normalizeGitHubUrl_idempotent_counterexample:
  "normalizeGitHubUrl (Some ''https://github.com/acme/widgets.git.git'') =
     Some ''https://github.com/acme/widgets.git''
   \<and> normalizeGitHubUrl (normalizeGitHubUrl (Some ''https://github.com/acme/widgets.git.git'')) =
       Some ''https://github.com/acme/widgets''
   \<and> normalizeGitHubUrl (normalizeGitHubUrl (Some ''https://github.com/acme/widgets.git.git'')) \<noteq>
       normalizeGitHubUrl (Some ''https://github.com/acme/widgets.git.git'')"
proof -
  have a: "normalizeGitHubUrl (Some ''https://github.com/acme/widgets.git.git'') =
     Some ''https://github.com/acme/widgets.git''"
    by code_simp
  have b: "normalizeGitHubUrl (Some ''https://github.com/acme/widgets.git'') =
     Some ''https://github.com/acme/widgets''"
    by code_simp
  from a b show ?thesis by simp
qed


subsection \<open>The change-request number\<close>

text \<open>
  Claim C5 lists \<open>fix\<close> among the closing keywords of the second pattern. The pattern
  of the code is \<open>fixes?\<close>, which is \<open>fixe\<close> with an optional \<open>s\<close>: it does not match
  \<open>fix #2\<close>, while \<open>closes?\<close>, \<open>resolves?\<close> and \<open>refs?\<close> do match their verb. So for
  the message \<open>see #1, fix #2\<close> the second pattern fails and the bare pattern returns
  the leftmost number, 1, where the keyword \<open>close\<close> and the keyword \<open>fixes\<close> give 2.
\<close>

theorem getPRNumberFromCommit_fix_keyword:
  "snd (getPRNumberFromCommit
         [(''git log -1 --format=%B 1a2b3c'', ''/repo'') \<mapsto> ''see #1, fix #2'']
         ''/repo'' ''1a2b3c'') = Some ''1''
   \<and> snd (getPRNumberFromCommit
         [(''git log -1 --format=%B 1a2b3c'', ''/repo'') \<mapsto> ''see #1, close #2'']
         ''/repo'' ''1a2b3c'') = Some ''2''
   \<and> snd (getPRNumberFromCommit
         [(''git log -1 --format=%B 1a2b3c'', ''/repo'') \<mapsto> ''see #1, fixes #2'']
         ''/repo'' ''1a2b3c'') = Some ''2''
   \<and> \<not> re_test keyword_re ''fix #2''
   \<and> re_test keyword_re ''fixe #2''
   \<and> re_test keyword_re ''close #2''"
  by code_simp

text \<open>
  The example of the claim holds: the merge phrase has precedence over a stray number,
  before or after it.
\<close>

lemma getPRNumberFromCommit_merge_example:
  "snd (getPRNumberFromCommit
         [(''git log -1 --format=%B 1a2b3c'', ''/repo'') \<mapsto>
            ''Merge pull request #10 from acme/topic\<newline>\<newline>Follow-up to #99'']
         ''/repo'' ''1a2b3c'') = Some ''10''"
  and "snd (getPRNumberFromCommit
         [(''git log -1 --format=%B 1a2b3c'', ''/repo'') \<mapsto>
            ''Revert #99\<newline>\<newline>Merge pull request #10 from acme/topic'']
         ''/repo'' ''1a2b3c'') = Some ''10''"
  by code_simp+


subsection \<open>The relative path\<close>

text \<open>
  What holds of the relative path: it has no backslash, whatever \<open>path.relative\<close> returns;
  and on a POSIX platform, for a root and a file path below it that \<open>resolve\<close> leaves as
  they are, it is the part of the file path below the root, with every backslash turned
  into a slash.
\<close>

lemma getRelativePath_no_backslash:
  "CHR 0x5C \<notin> set (getRelativePath relative filePath gitRoot)"
  by (auto simp add: getRelativePath_def)

lemma common_prefix_length:
  "length (takeWhile (\<lambda>(a, b). a = b) (zip xs (xs @ ys))) = length xs"
  by (induction xs) simp_all

lemma relative_resolved_below:
  assumes "gitRoot \<noteq> []"
  shows "relative_resolved gitRoot (gitRoot @ ''/'' @ rest) = rest"
proof -
  obtain x xs where r: "gitRoot = x # xs"
    using assms by (cases gitRoot) auto
  have i: "length (takeWhile (\<lambda>(a, b). a = b) (zip xs (xs @ CHR ''/'' # rest))) = length xs"
    by (rule common_prefix_length)
  have nth: "(xs @ CHR ''/'' # rest) ! length xs = CHR ''/''"
    by simp
  show ?thesis
    unfolding relative_resolved_def r by (simp add: i nth Let_def)
qed

lemma posix_relative_below:
  assumes root: "posix_resolve cwd gitRoot = gitRoot"
    and target: "posix_resolve cwd (gitRoot @ ''/'' @ rest) = gitRoot @ ''/'' @ rest"
  shows "posix_relative cwd gitRoot (gitRoot @ ''/'' @ rest) = rest"
proof -
  have "gitRoot \<noteq> []"
    using root by (auto simp add: posix_resolve_def Let_def)
  then have "relative_resolved gitRoot (gitRoot @ ''/'' @ rest) = rest"
    by (rule relative_resolved_below)
  then show ?thesis
    unfolding posix_relative_def root target by simp
qed

lemma getRelativePath_below_root:
  assumes "posix_resolve cwd gitRoot = gitRoot"
    and "posix_resolve cwd (gitRoot @ ''/'' @ rest) = gitRoot @ ''/'' @ rest"
  shows "getRelativePath (posix_relative cwd) (gitRoot @ ''/'' @ rest) gitRoot =
           map (\<lambda>x. if x = CHR 0x5C then CHR ''/'' else x) rest"
  using posix_relative_below [OF assms] by (simp add: getRelativePath_def)

lemma posix_resolve_repo: "posix_resolve cwd ''/repo'' = ''/repo''"
  by (simp add: posix_resolve_def normalizeString_def)

lemma getRelativePath_index_ts:
  "getRelativePath (posix_relative cwd) ''/repo/src/index.ts'' ''/repo'' = ''src/index.ts''"
proof -
  have "posix_resolve cwd (''/repo'' @ ''/'' @ ''src/index.ts'') = ''/repo'' @ ''/'' @ ''src/index.ts''"
    by (simp add: posix_resolve_def normalizeString_def)
  from getRelativePath_below_root [OF posix_resolve_repo this] show ?thesis
    by simp
qed

lemma getRelativePath_resolved_first:
  "getRelativePath (posix_relative cwd) ''/repo/a/../b.txt'' ''/repo'' = ''b.txt''"
proof -
  have "posix_resolve cwd ''/repo/a/../b.txt'' = ''/repo'' @ ''/'' @ ''b.txt''"
    by (simp add: posix_resolve_def normalizeString_def)
  then have "posix_relative cwd ''/repo'' ''/repo/a/../b.txt'' = ''b.txt''"
    unfolding posix_relative_def posix_resolve_repo
    using relative_resolved_below [of "''/repo''" "''b.txt''"] by simp
  then show ?thesis
    by (simp add: getRelativePath_def)
qed

text \<open>
  Claim C8 says that for a file under the repository root the relative path has no
  backslash, does not start with a slash and has no \<open>..\<close> segment. The code turns every
  backslash into a slash on every platform. On a POSIX platform a backslash is an ordinary
  character of a file name, so the file \<open>\notes.txt\<close> below \<open>/repo\<close> gets \<open>/notes.txt\<close>,
  which starts with a slash and is not the relative path from the git root that the
  documentation of the function promises, and the file \<open>..\notes.txt\<close> gets
  \<open>../notes.txt\<close>, which has a \<open>..\<close> segment.
\<close>

theorem getRelativePath_backslash_name:
  "getRelativePath (posix_relative cwd) (''/repo/'' @ CHR 0x5C # ''notes.txt'') ''/repo'' = ''/notes.txt''
   \<and> prefix ''/'' (getRelativePath (posix_relative cwd) (''/repo/'' @ CHR 0x5C # ''notes.txt'') ''/repo'')
   \<and> getRelativePath (posix_relative cwd) (''/repo/..'' @ CHR 0x5C # ''notes.txt'') ''/repo'' =
       ''../notes.txt''
   \<and> ''..'' \<in> set (split_on CHR ''/''
         (getRelativePath (posix_relative cwd) (''/repo/..'' @ CHR 0x5C # ''notes.txt'') ''/repo''))"
proof -
  have a: "posix_resolve cwd (''/repo'' @ ''/'' @ CHR 0x5C # ''notes.txt'') =
             ''/repo'' @ ''/'' @ CHR 0x5C # ''notes.txt''"
    by (simp add: posix_resolve_def normalizeString_def)
  have b: "posix_resolve cwd (''/repo'' @ ''/'' @ ''..'' @ CHR 0x5C # ''notes.txt'') =
             ''/repo'' @ ''/'' @ ''..'' @ CHR 0x5C # ''notes.txt''"
    by (simp add: posix_resolve_def normalizeString_def)
  from getRelativePath_below_root [OF posix_resolve_repo a]
    getRelativePath_below_root [OF posix_resolve_repo b]
  show ?thesis by simp
qed

end
